theory Spec2Isabelle
  imports Complex_Main "HOL-Library.AList" "HOL-Library.Multiset"
begin

section \<open>The spring exporter: one collection cycle\<close>

text \<open>
  The development follows \<^verbatim>\<open>src/spring/exporter.go\<close>. The functions of the
  package (\<^verbatim>\<open>NewExporter\<close>, \<^verbatim>\<open>Describe\<close>, \<^verbatim>\<open>collect\<close>, \<^verbatim>\<open>keyToSnake\<close>,
  \<^verbatim>\<open>Collect\<close>) are translated one by one. What the package calls but does not contain
  (the HTTP client, the clock, the JSON decoder, the regular expression engine, the
  Prometheus client library and the order in which Go ranges over a map) is either an
  explicit input of the cycle (the record \<open>World\<close>) or a small definition marked as
  standing for a library function.
\<close>

subsection \<open>Strings\<close>

text \<open>
  The regular expression engine of Go reads a string as a sequence of code points, so a
  string is modelled as the list of its code points (a \<^verbatim>\<open>rune\<close> is a number). For an
  ASCII string this is the list of its bytes. \<open>S\<close> turns a literal into such a list.
\<close>

type_synonym rune = nat
type_synonym gostring = "rune list"

abbreviation S :: "string \<Rightarrow> gostring" where
  "S s \<equiv> map of_char s"

abbreviation R :: "char \<Rightarrow> rune" where
  "R c \<equiv> of_char c"

subsection \<open>The key sanitizer\<close>

text \<open>
  \<^verbatim>\<open>keyRegExp = regexp.MustCompile("[^a-zA-Z0-9:_]")\<close>. The only regular expressions
  the package uses are single character classes, so a compiled expression is a class:
  a list of inclusive ranges, negated or not.
\<close>

datatype Regexp = Class "(rune \<times> rune) list" | NegClass "(rune \<times> rune) list"

fun inRanges :: "(rune \<times> rune) list \<Rightarrow> rune \<Rightarrow> bool" where
  "inRanges [] c = False"
| "inRanges ((lo, hi) # rs) c = ((lo \<le> c \<and> c \<le> hi) \<or> inRanges rs c)"

fun matchRune :: "Regexp \<Rightarrow> rune \<Rightarrow> bool" where
  "matchRune (Class rs) c = inRanges rs c"
| "matchRune (NegClass rs) c = (\<not> inRanges rs c)"

definition keyRegExp :: Regexp where
  "keyRegExp = NegClass [(R CHR ''a'', R CHR ''z''), (R CHR ''A'', R CHR ''Z''),
                         (R CHR ''0'', R CHR ''9''), (R CHR '':'', R CHR '':''),
                         (R CHR ''_'', R CHR ''_'')]"

text \<open>
  \<^verbatim>\<open>(*Regexp).ReplaceAllString(src, repl)\<close> for a one-character class and a replacement
  without \<^verbatim>\<open>$\<close>: scanning from the left, each matching character is replaced by a copy
  of \<open>repl\<close>, every other character is copied.
\<close>

fun ReplaceAllString :: "Regexp \<Rightarrow> gostring \<Rightarrow> gostring \<Rightarrow> gostring" where
  "ReplaceAllString re [] repl = []"
| "ReplaceAllString re (c # src) repl =
     (if matchRune re c then repl @ ReplaceAllString re src repl
      else c # ReplaceAllString re src repl)"

definition keyToSnake :: "gostring \<Rightarrow> gostring" where
  "keyToSnake key = ReplaceAllString keyRegExp key (S ''_'')"

text \<open>The class \<^verbatim>\<open>[a-zA-Z0-9:_]\<close>, written out, for stating the properties.\<close>

definition allowed :: "rune \<Rightarrow> bool" where
  "allowed c = ((R CHR ''a'' \<le> c \<and> c \<le> R CHR ''z'') \<or> (R CHR ''A'' \<le> c \<and> c \<le> R CHR ''Z'')
               \<or> (R CHR ''0'' \<le> c \<and> c \<le> R CHR ''9'') \<or> c = R CHR '':'' \<or> c = R CHR ''_'')"

subsection \<open>Descriptors and measurements\<close>

text \<open>
  The Prometheus client library is not part of the package; the functions of it that
  \<open>collect\<close> calls are written here as the library defines them.

  A metric name is valid when it is not empty and consists of letters, digits, \<^verbatim>\<open>_\<close>
  and \<^verbatim>\<open>:\<close>, the first character not being a digit.
\<close>

definition isValidLegacyRune :: "rune \<Rightarrow> nat \<Rightarrow> bool" where
  "isValidLegacyRune b i =
     ((R CHR ''a'' \<le> b \<and> b \<le> R CHR ''z'') \<or> (R CHR ''A'' \<le> b \<and> b \<le> R CHR ''Z'') \<or>
      b = R CHR ''_'' \<or> b = R CHR '':'' \<or> (R CHR ''0'' \<le> b \<and> b \<le> R CHR ''9'' \<and> 0 < i))"

fun validFrom :: "nat \<Rightarrow> gostring \<Rightarrow> bool" where
  "validFrom i [] = True"
| "validFrom i (b # n) = (isValidLegacyRune b i \<and> validFrom (Suc i) n)"

definition IsValidMetricName :: "gostring \<Rightarrow> bool" where
  "IsValidMetricName n = (n \<noteq> [] \<and> validFrom 0 n)"

text \<open>
  \<^verbatim>\<open>NewDesc\<close> (its label arguments are always \<^verbatim>\<open>nil\<close> here) keeps the name and the help
  text, and records an error when the name is not a valid metric name.
  \<^verbatim>\<open>MustNewConstMetric\<close> panics on a descriptor that carries an error: \<open>Inl\<close> is the
  panic, \<open>Inr\<close> the measurement. A measurement carries its value as it is; the
  arithmetic of \<^verbatim>\<open>float64\<close> plays no part, so values are reals.
\<close>

type_synonym liberr = string

record Desc =
  fqName :: gostring
  helpText :: gostring
  descErr :: "liberr option"

definition NewDesc :: "gostring \<Rightarrow> gostring \<Rightarrow> Desc" where
  "NewDesc fq h =
     \<lparr>fqName = fq, helpText = h,
      descErr = (if IsValidMetricName fq then None else Some ''is not a valid metric name'')\<rparr>"

datatype ValueType = CounterValue | GaugeValue | UntypedValue

record Metric =
  desc :: Desc
  valueType :: ValueType
  val :: real

definition MustNewConstMetric :: "Desc \<Rightarrow> ValueType \<Rightarrow> real \<Rightarrow> liberr + Metric" where
  "MustNewConstMetric d t v =
     (case descErr d of
        Some e \<Rightarrow> Inl e
      | None \<Rightarrow> Inr \<lparr>desc = d, valueType = t, val = v\<rparr>)"

text \<open>
  \<^verbatim>\<open>prometheus.BuildFQName\<close>: the non-empty parts joined by an underscore, and the empty
  string when the name is empty.
\<close>

definition BuildFQName :: "gostring \<Rightarrow> gostring \<Rightarrow> gostring \<Rightarrow> gostring" where
  "BuildFQName namespace subsystem name =
     (if name = [] then []
      else if namespace \<noteq> [] \<and> subsystem \<noteq> [] then namespace @ S ''_'' @ subsystem @ S ''_'' @ name
      else if namespace \<noteq> [] then namespace @ S ''_'' @ name
      else if subsystem \<noteq> [] then subsystem @ S ''_'' @ name
      else name)"

subsection \<open>The exporter\<close>

text \<open>
  The fields of \<^verbatim>\<open>Exporter\<close>. The logger and the mutex carry no data; of the HTTP
  client only the flag \<^verbatim>\<open>InsecureSkipVerify\<close> is configuration.
\<close>

record Exporter =
  namespace :: gostring
  URI :: gostring
  basicAuthUser :: gostring
  basicAuthPassword :: gostring
  insecureSkipVerify :: bool
  up :: Desc
  duration :: Desc

definition NewExporter ::
  "gostring \<Rightarrow> bool \<Rightarrow> gostring \<Rightarrow> gostring \<Rightarrow> gostring \<Rightarrow> Exporter" where
  "NewExporter ns insecure uri user password =
     \<lparr>namespace = ns, URI = uri, basicAuthUser = user, basicAuthPassword = password,
      insecureSkipVerify = insecure,
      up = NewDesc (BuildFQName ns [] (S ''up'')) (S ''Could spring endpoint be reached''),
      duration = NewDesc (BuildFQName ns [] (S ''response_duration''))
                   (S ''How long the spring endpoint took to deliver the metrics'')\<rparr>"

definition Describe :: "Exporter \<Rightarrow> Desc list" where
  "Describe e = [up e, duration e]"

subsection \<open>What the cycle receives from outside\<close>

text \<open>
  Errors of the libraries are opaque texts. A JSON document is a value of \<open>json\<close>, a
  number being the value its literal denotes; a body is the document its bytes spell, or
  \<open>None\<close> when the bytes are not JSON at all.
\<close>

datatype json =
    JNull
  | JBool bool
  | JNumber real
  | JString gostring
  | JArray "json list"
  | JObject "(gostring \<times> json) list"

type_synonym bytes = "json option"

record Request =
  Method :: string
  URL :: gostring
  Authorization :: "(gostring \<times> gostring) option"

definition SetBasicAuth :: "Request \<Rightarrow> gostring \<Rightarrow> gostring \<Rightarrow> Request" where
  "SetBasicAuth req username password = req\<lparr>Authorization := Some (username, password)\<rparr>"

text \<open>\<open>Body\<close> is what \<^verbatim>\<open>ioutil.ReadAll(resp.Body)\<close> returns.\<close>

record Response =
  StatusCode :: int
  Body :: "liberr + bytes"

text \<open>
  \<open>NewRequest\<close> is \<^verbatim>\<open>http.NewRequest\<close>. \<open>Do\<close> is \<^verbatim>\<open>e.client.Do\<close> with its two
  results, the response (\<open>None\<close> for \<^verbatim>\<open>nil\<close>) and the error (\<open>None\<close> for \<^verbatim>\<open>nil\<close>): the
  client returns both a response and an error when its redirect policy stops it.
  \<open>Since\<close> is the value of \<^verbatim>\<open>time.Since(startTime).Seconds()\<close> when \<open>Do\<close> has returned.
  Go ranges over a map in an order of its own choosing: \<open>rangeOrder\<close> ranks the keys, and
  the loop visits them by increasing rank, so every theorem about \<open>collect\<close> holds for
  any order.
\<close>

record World =
  NewRequest :: "string \<Rightarrow> gostring \<Rightarrow> liberr + Request"
  Do :: "Request \<Rightarrow> Response option \<times> liberr option"
  Since :: real
  rangeOrder :: "gostring \<Rightarrow> nat"

subsection \<open>Decoding the body\<close>

text \<open>
  \<^verbatim>\<open>type jsonData map[string]float64\<close>: a map is a list of entries with distinct keys.

  \<^verbatim>\<open>json.Unmarshal(body, &data)\<close> into a nil \<open>jsonData\<close>, as the documentation of
  \<^verbatim>\<open>encoding/json\<close> describes it: bytes that are not JSON are a syntax error; the
  document \<^verbatim>\<open>null\<close> leaves the map as it is and is no error; an object stores its
  members one after the other, a later member replacing an earlier one of the same key,
  a \<^verbatim>\<open>null\<close> member storing the zero value; a member or a document of any other shape
  is a type error, and so is a number that \<^verbatim>\<open>strconv.ParseFloat\<close> finds out of the range
  of \<^verbatim>\<open>float64\<close>, that is, half a unit in the last place or more beyond the largest
  \<^verbatim>\<open>float64\<close>. The rounding of a number in the range is not modelled.
\<close>

type_synonym jsonData = "(gostring \<times> real) list"

datatype json_error = SyntaxError | UnmarshalTypeError

definition inFloat64 :: "real \<Rightarrow> bool" where
  "inFloat64 x = (\<bar>x\<bar> < 2 ^ 1024 - 2 ^ 970)"

fun isFloat :: "json \<Rightarrow> bool" where
  "isFloat (JNumber x) = inFloat64 x"
| "isFloat JNull = True"
| "isFloat _ = False"

fun toFloat :: "json \<Rightarrow> real" where
  "toFloat (JNumber x) = x"
| "toFloat _ = 0"

fun storeMembers :: "(gostring \<times> json) list \<Rightarrow> jsonData \<Rightarrow> jsonData" where
  "storeMembers [] m = m"
| "storeMembers ((k, v) # kvs) m = storeMembers kvs (AList.update k (toFloat v) m)"

fun Unmarshal :: "bytes \<Rightarrow> json_error + jsonData" where
  "Unmarshal None = Inl SyntaxError"
| "Unmarshal (Some JNull) = Inr []"
| "Unmarshal (Some (JObject kvs)) =
     (if list_all (\<lambda>(k, v). isFloat v) kvs then Inr (storeMembers kvs [])
      else Inl UnmarshalTypeError)"
| "Unmarshal (Some _) = Inl UnmarshalTypeError"

subsection \<open>The collection cycle\<close>

datatype error =
    RequestErr liberr
  | ScrapeErr liberr
  | ReadErr liberr
  | StatusErr int
  | JSONErr json_error

text \<open>
  A call returns, or it panics. \<open>collect\<close> gives what it has sent on the channel, in the
  order of sending, and how it ended: returning its error (\<open>None\<close> for \<^verbatim>\<open>nil\<close>), or
  panicking.
\<close>

datatype 'a outcome = Returns 'a | Panics liberr

text \<open>
  \<^verbatim>\<open>ch <- prometheus.MustNewConstMetric(...)\<close>: the measurement is built and sent, and
  the function goes on with \<open>k\<close>; when building it panics nothing is sent.
\<close>

definition send ::
  "Metric list \<Rightarrow> liberr + Metric \<Rightarrow> (Metric list \<Rightarrow> Metric list \<times> 'a outcome)
   \<Rightarrow> Metric list \<times> 'a outcome" where
  "send ch m k = (case m of Inl p \<Rightarrow> (ch, Panics p) | Inr x \<Rightarrow> k (ch @ [x]))"

text \<open>
  The loop \<^verbatim>\<open>for key, value := range data\<close>: \<open>payloadMetric\<close> is the measurement built
  for one entry, \<open>rangeOver\<close> the order of the visit, \<open>rangeLoop\<close> the loop over the
  entries in that order.
\<close>

definition payloadMetric :: "Exporter \<Rightarrow> gostring \<times> real \<Rightarrow> liberr + Metric" where
  "payloadMetric e kv =
     (let snakeKey = keyToSnake (fst kv)
      in MustNewConstMetric (NewDesc (BuildFQName (namespace e) [] snakeKey) (fst kv))
           UntypedValue (snd kv))"

definition rangeOver :: "World \<Rightarrow> jsonData \<Rightarrow> jsonData" where
  "rangeOver w data = sort_key (\<lambda>kv. rangeOrder w (fst kv)) data"

fun rangeLoop ::
  "Exporter \<Rightarrow> Metric list \<Rightarrow> jsonData \<Rightarrow> Metric list \<times> error option outcome" where
  "rangeLoop e ch [] = (ch, Returns None)"
| "rangeLoop e ch (kv # kvs) =
     (case payloadMetric e kv of
        Inl p \<Rightarrow> (ch, Panics p)
      | Inr m \<Rightarrow> rangeLoop e (ch @ [m]) kvs)"

text \<open>
  The statements are in the order of the source: the duration is sent when \<open>Do\<close> has
  returned, then \<^verbatim>\<open>up\<close>; the body is read before the status code is looked at. A \<^verbatim>\<open>nil\<close>
  response without an error, which the client never returns, would panic where the body
  is first touched.
\<close>

definition collect :: "Exporter \<Rightarrow> World \<Rightarrow> Metric list \<times> error option outcome" where
  "collect e w =
     (case NewRequest w ''GET'' (URI e) of
        Inl err \<Rightarrow> ([], Returns (Some (RequestErr err)))
      | Inr req0 \<Rightarrow>
          let req = SetBasicAuth req0 (basicAuthUser e) (basicAuthPassword e);
              (resp, err) = Do w req
          in send [] (MustNewConstMetric (duration e) GaugeValue (Since w)) (\<lambda>ch.
               case err of
                 Some err \<Rightarrow>
                   send ch (MustNewConstMetric (up e) GaugeValue 0) (\<lambda>ch.
                     (ch, Returns (Some (ScrapeErr err))))
               | None \<Rightarrow>
                   send ch (MustNewConstMetric (up e) GaugeValue 1) (\<lambda>ch.
                     case resp of
                       None \<Rightarrow> (ch, Panics ''nil pointer dereference'')
                     | Some resp \<Rightarrow>
                         (case Body resp of
                            Inl readErr \<Rightarrow> (ch, Returns (Some (ReadErr readErr)))
                          | Inr body \<Rightarrow>
                              if StatusCode resp \<noteq> 200
                              then (ch, Returns (Some (StatusErr (StatusCode resp))))
                              else (case Unmarshal body of
                                      Inl err \<Rightarrow> (ch, Returns (Some (JSONErr err)))
                                    | Inr data \<Rightarrow> rangeLoop e ch (rangeOver w data))))))"

text \<open>
  \<^verbatim>\<open>Collect\<close> runs \<open>collect\<close> and logs its error; it gives the channel and the lines
  logged at error level, or the panic of \<open>collect\<close>. The mutex it holds meanwhile has no
  counterpart in a function.
\<close>

definition Collect :: "Exporter \<Rightarrow> World \<Rightarrow> Metric list \<times> error list outcome" where
  "Collect e w =
     (case collect e w of
        (ch, Returns (Some err)) \<Rightarrow> (ch, Returns [err])
      | (ch, Returns None) \<Rightarrow> (ch, Returns [])
      | (ch, Panics p) \<Rightarrow> (ch, Panics p))"

section \<open>Vocabulary of the properties\<close>

text \<open>
  The request handed to \<open>Do\<close>; the two measurements about the scrape itself and the
  measurement of an entry of the payload, as they are once built, an entry being valid
  when building its measurement does not panic; and the tests that tell them apart: a measurement is the \<^verbatim>\<open>up\<close> (the \<^verbatim>\<open>response_duration\<close>)
  measurement when it carries the exporter's descriptor of that name, and a payload
  measurement when it is neither.
\<close>

definition sentRequest :: "Exporter \<Rightarrow> Request \<Rightarrow> Request" where
  "sentRequest e req0 = SetBasicAuth req0 (basicAuthUser e) (basicAuthPassword e)"

definition durationMetric :: "Exporter \<Rightarrow> World \<Rightarrow> Metric" where
  "durationMetric e w = \<lparr>desc = duration e, valueType = GaugeValue, val = Since w\<rparr>"

definition upMetric :: "Exporter \<Rightarrow> real \<Rightarrow> Metric" where
  "upMetric e v = \<lparr>desc = up e, valueType = GaugeValue, val = v\<rparr>"

definition entryMetric :: "Exporter \<Rightarrow> gostring \<times> real \<Rightarrow> Metric" where
  "entryMetric e kv =
     \<lparr>desc = NewDesc (BuildFQName (namespace e) [] (keyToSnake (fst kv))) (fst kv),
      valueType = UntypedValue, val = snd kv\<rparr>"

definition entryValid :: "Exporter \<Rightarrow> gostring \<times> real \<Rightarrow> bool" where
  "entryValid e kv = (descErr (desc (entryMetric e kv)) = None)"

definition isUp :: "Exporter \<Rightarrow> Metric \<Rightarrow> bool" where
  "isUp e m = (desc m = up e)"

definition isDuration :: "Exporter \<Rightarrow> Metric \<Rightarrow> bool" where
  "isDuration e m = (desc m = duration e)"

definition payload :: "Exporter \<Rightarrow> Metric list \<Rightarrow> Metric list" where
  "payload e ch = filter (\<lambda>m. \<not> isUp e m \<and> \<not> isDuration e m) ch"

section \<open>Example exporters and servers\<close>

text \<open>
  Worlds in which a server answers every request in one fixed way and the address
  \<^verbatim>\<open>://metrics\<close> is the one that cannot be parsed. Three exporters for an address that
  parses or not and a namespace that gives valid names or not.
\<close>

definition parseRequest :: "string \<Rightarrow> gostring \<Rightarrow> liberr + Request" where
  "parseRequest method url =
     (if url = S ''://metrics'' then Inl ''missing protocol scheme''
      else Inr \<lparr>Method = method, URL = url, Authorization = None\<rparr>)"

definition server :: "Response option \<times> liberr option \<Rightarrow> World" where
  "server r = \<lparr>NewRequest = parseRequest, Do = (\<lambda>req. r), Since = 1 / 8, rangeOrder = length\<rparr>"

definition misconfigured :: Exporter where
  "misconfigured = NewExporter (S ''spring'') False (S ''://metrics'') [] []"

definition springExporter :: Exporter where
  "springExporter = NewExporter (S ''spring'') False (S ''http://localhost:8080/metrics'') [] []"

definition dashed :: Exporter where
  "dashed = NewExporter (S ''my-ns'') False (S ''http://localhost:8080/metrics'') [] []"

definition refused :: World where
  "refused = server (None, Some ''connection refused'')"

definition redirecting :: World where
  "redirecting =
     server (Some \<lparr>StatusCode = 302, Body = Inr None\<rparr>, Some ''stopped after 10 redirects'')"

definition brokenBody500 :: World where
  "brokenBody500 = server (Some \<lparr>StatusCode = 500, Body = Inl ''unexpected EOF''\<rparr>, None)"

definition notFound :: World where
  "notFound = server (Some \<lparr>StatusCode = 404, Body = Inr None\<rparr>, None)"

definition nullBody :: World where
  "nullBody = server (Some \<lparr>StatusCode = 200, Body = Inr (Some JNull)\<rparr>, None)"

definition twoDisks :: World where
  "twoDisks = server (Some \<lparr>StatusCode = 200,
     Body = Inr (Some (JObject [(S ''disk free'', JNumber 999), (S ''disk.free'', JNumber 5)]))\<rparr>,
     None)"

definition emptyKey :: World where
  "emptyKey = server (Some \<lparr>StatusCode = 200,
     Body = Inr (Some (JObject [([], JNumber 1)]))\<rparr>, None)"

abbreviation plainRequest :: Request where
  "plainRequest \<equiv>
     \<lparr>Method = ''GET'', URL = S ''http://localhost:8080/metrics'', Authorization = None\<rparr>"

section \<open>Properties of the key sanitizer\<close>

lemma matchRune_keyRegExp: "matchRune keyRegExp c = (\<not> allowed c)"
  by (auto simp add: keyRegExp_def allowed_def)

lemma allowed_underscore: "allowed (R CHR ''_'')"
  by (simp add: allowed_def)

lemma keyToSnake_Nil: "keyToSnake [] = []"
  by (simp add: keyToSnake_def)

lemma keyToSnake_Cons:
  "keyToSnake (c # s) = (if allowed c then c else R CHR ''_'') # keyToSnake s"
  by (simp add: keyToSnake_def matchRune_keyRegExp)

lemma keyToSnake_map: "keyToSnake s = map (\<lambda>c. if allowed c then c else R CHR ''_'') s"
  by (induction s) (simp_all only: keyToSnake_Nil keyToSnake_Cons list.map)

lemma keyToSnake_allowed: "c \<in> set (keyToSnake s) \<Longrightarrow> allowed c"
proof (induction s)
  case Nil
  then show ?case by (simp add: keyToSnake_Nil)
next
  case (Cons a s)
  then show ?case
    using allowed_underscore by (auto simp add: keyToSnake_Cons split: if_splits)
qed

lemma keyToSnake_fix: "\<forall>c\<in>set s. allowed c \<Longrightarrow> keyToSnake s = s"
  by (induction s) (simp_all add: keyToSnake_Nil keyToSnake_Cons)

text \<open>
  C3. The sanitizer is defined on every string, the empty one included; its result has
  the length of its argument, and at each position it holds the character of the
  argument when that is in \<^verbatim>\<open>[a-zA-Z0-9:_]\<close> and one underscore otherwise. Runs of
  disallowed characters are therefore not collapsed.
\<close>

theorem keyToSnake_charwise:
  "keyToSnake [] = [] \<and>
   length (keyToSnake s) = length s \<and>
   (\<forall>i<length s. keyToSnake s ! i = (if allowed (s ! i) then s ! i else R CHR ''_''))"
proof (intro conjI allI impI)
  show "keyToSnake [] = []"
    by (rule keyToSnake_Nil)
  show "length (keyToSnake s) = length s"
    by (induction s) (simp_all add: keyToSnake_Nil keyToSnake_Cons)
  fix i
  assume "i < length s"
  then show "keyToSnake s ! i = (if allowed (s ! i) then s ! i else R CHR ''_'')"
  proof (induction s arbitrary: i)
    case Nil
    then show ?case by simp
  next
    case (Cons c s)
    then show ?case by (cases i) (simp_all add: keyToSnake_Cons)
  qed
qed

theorem keyToSnake_charwise_witness:
  "length (keyToSnake (S ''a. b'')) = 4 \<and>
   keyToSnake (S ''a. b'') ! 0 = R CHR ''a'' \<and>
   keyToSnake (S ''a. b'') ! 1 = R CHR ''_'' \<and>
   keyToSnake (S ''a. b'') ! 2 = R CHR ''_'' \<and>
   keyToSnake (S ''a. b'') ! 3 = R CHR ''b''"
proof -
  note h = keyToSnake_charwise [of "S ''a. b''"]
  from h have len: "length (keyToSnake (S ''a. b'')) = 4" by simp
  from h have nth: "\<And>i. i < 4 \<Longrightarrow>
      keyToSnake (S ''a. b'') ! i = (if allowed (S ''a. b'' ! i) then S ''a. b'' ! i else R CHR ''_'')"
    by simp
  from nth [of 0] have n0: "keyToSnake (S ''a. b'') ! 0 = R CHR ''a''" by (simp add: allowed_def)
  from nth [of 1] have n1: "keyToSnake (S ''a. b'') ! 1 = R CHR ''_''" by (simp add: allowed_def)
  from nth [of 2] have n2: "keyToSnake (S ''a. b'') ! 2 = R CHR ''_''" by (simp add: allowed_def)
  from nth [of 3] have n3: "keyToSnake (S ''a. b'') ! 3 = R CHR ''b''" by (simp add: allowed_def)
  from len n0 n1 n2 n3 show ?thesis by blast
qed

text \<open>
  C4. The sanitizer is total and idempotent, and its result consists of characters of
  \<^verbatim>\<open>[A-Za-z0-9:_]\<close> only.
\<close>

theorem keyToSnake_idem:
  "keyToSnake (keyToSnake s) = keyToSnake s \<and> (\<forall>c\<in>set (keyToSnake s). allowed c)"
  using keyToSnake_fix [of "keyToSnake s"] keyToSnake_allowed [of _ s] by blast

theorem keyToSnake_idem_witness:
  "keyToSnake (keyToSnake (S ''disk free'')) = S ''disk_free'' \<and>
   list_all allowed (S ''disk_free'')"
proof -
  have k: "keyToSnake (S ''disk free'') = S ''disk_free''"
    by (simp add: keyToSnake_def keyRegExp_def)
  from keyToSnake_idem [of "S ''disk free''"] show ?thesis
    unfolding k by simp
qed

section \<open>Properties of the collection cycle\<close>

subsection \<open>Valid metric names\<close>

lemma isValidLegacyRune_pos: "0 < i \<Longrightarrow> isValidLegacyRune b i = allowed b"
  by (auto simp add: isValidLegacyRune_def allowed_def)

lemma isValidLegacyRune_allowed: "isValidLegacyRune b i \<Longrightarrow> allowed b"
  by (auto simp add: isValidLegacyRune_def allowed_def)

lemma validFrom_pos: "0 < i \<Longrightarrow> validFrom i n = list_all allowed n"
  by (induction n arbitrary: i) (simp_all add: isValidLegacyRune_pos)

lemma validFrom_append:
  "validFrom i (xs @ ys) = (validFrom i xs \<and> validFrom (i + length xs) ys)"
  by (induction xs arbitrary: i) simp_all

lemma IsValidMetricName_plain:
  "IsValidMetricName name =
     (name \<noteq> [] \<and> list_all allowed name \<and> isValidLegacyRune (hd name) 0)"
proof (cases name)
  case Nil
  then show ?thesis by (simp add: IsValidMetricName_def)
next
  case (Cons c cs)
  then show ?thesis
    using isValidLegacyRune_allowed [of c 0]
    by (auto simp add: IsValidMetricName_def validFrom_pos)
qed

lemma IsValidMetricName_prefixed:
  assumes "ns \<noteq> []"
  shows "IsValidMetricName (ns @ S ''_'' @ name) = (validFrom 0 ns \<and> list_all allowed name)"
proof -
  from assms have "0 < length ns" by simp
  then have "validFrom (0 + length ns) (S ''_'' @ name) = list_all allowed (S ''_'' @ name)"
    by (simp only: validFrom_pos add_0)
  also have "\<dots> = list_all allowed name"
    using allowed_underscore by simp
  finally show ?thesis
    using assms by (simp add: IsValidMetricName_def validFrom_append)
qed

lemma IsValidMetricName_BuildFQName:
  "IsValidMetricName (BuildFQName ns [] name) =
     (name \<noteq> [] \<and> list_all allowed name \<and>
      (if ns = [] then isValidLegacyRune (hd name) 0 else validFrom 0 ns))"
proof (cases "name = []")
  case True
  then show ?thesis by (simp add: BuildFQName_def IsValidMetricName_def)
next
  case name: False
  show ?thesis
  proof (cases "ns = []")
    case True
    with name have "BuildFQName ns [] name = name" by (simp add: BuildFQName_def)
    with True name show ?thesis by (simp add: IsValidMetricName_plain)
  next
    case False
    with name have "BuildFQName ns [] name = ns @ S ''_'' @ name" by (simp add: BuildFQName_def)
    with False name IsValidMetricName_prefixed [OF False, of name] show ?thesis by auto
  qed
qed

lemma descErr_NewDesc: "(descErr (NewDesc fq h) = None) = IsValidMetricName fq"
  by (simp add: NewDesc_def)

lemma descErr_up: "(descErr (up (NewExporter ns i u a p)) = None) = validFrom 0 ns"
  by (simp add: NewExporter_def descErr_NewDesc IsValidMetricName_BuildFQName allowed_def
      isValidLegacyRune_def)

lemma descErr_duration: "(descErr (duration (NewExporter ns i u a p)) = None) = validFrom 0 ns"
  by (simp add: NewExporter_def descErr_NewDesc IsValidMetricName_BuildFQName allowed_def
      isValidLegacyRune_def)

lemma keyToSnake_empty: "(keyToSnake k = []) = (k = [])"
  by (simp add: keyToSnake_map)

lemma list_all_keyToSnake: "list_all allowed (keyToSnake k)"
  using keyToSnake_allowed [of _ k] by (simp add: list_all_iff)

lemma entryValid_iff:
  "entryValid e kv =
     (fst kv \<noteq> [] \<and>
      (if namespace e = [] then isValidLegacyRune (hd (keyToSnake (fst kv))) 0
       else validFrom 0 (namespace e)))"
  by (simp add: entryValid_def entryMetric_def descErr_NewDesc IsValidMetricName_BuildFQName
      keyToSnake_empty list_all_keyToSnake)

subsection \<open>Building and sending a measurement\<close>

lemma MustNewConstMetric_valid:
  "descErr d = None \<Longrightarrow> MustNewConstMetric d t v = Inr \<lparr>desc = d, valueType = t, val = v\<rparr>"
  by (simp add: MustNewConstMetric_def)

lemma MustNewConstMetric_invalid: "descErr d = Some p \<Longrightarrow> MustNewConstMetric d t v = Inl p"
  by (simp add: MustNewConstMetric_def)

lemma send_Inr: "send ch (Inr x) k = k (ch @ [x])"
  by (simp add: send_def)

lemma send_Inl: "send ch (Inl p) k = (ch, Panics p)"
  by (simp add: send_def)

lemma payloadMetric_valid: "entryValid e kv \<Longrightarrow> payloadMetric e kv = Inr (entryMetric e kv)"
  by (simp add: entryValid_def payloadMetric_def entryMetric_def MustNewConstMetric_def)

lemma payloadMetric_invalid: "\<not> entryValid e kv \<Longrightarrow> \<exists>p. payloadMetric e kv = Inl p"
  by (auto simp add: entryValid_def payloadMetric_def entryMetric_def MustNewConstMetric_def)

lemma rangeLoop_fst:
  "fst (rangeLoop e ch kvs) = ch @ map (entryMetric e) (takeWhile (entryValid e) kvs)"
proof (induction kvs arbitrary: ch)
  case Nil
  then show ?case by simp
next
  case (Cons kv kvs)
  show ?case
  proof (cases "entryValid e kv")
    case True
    with Cons show ?thesis by (simp add: payloadMetric_valid)
  next
    case False
    then obtain p where "payloadMetric e kv = Inl p"
      using payloadMetric_invalid by blast
    with False show ?thesis by simp
  qed
qed

lemma rangeLoop_valid:
  "list_all (entryValid e) kvs \<Longrightarrow> rangeLoop e ch kvs = (ch @ map (entryMetric e) kvs, Returns None)"
  by (induction kvs arbitrary: ch) (simp_all add: payloadMetric_valid)

lemma rangeLoop_invalid:
  "\<not> list_all (entryValid e) kvs \<Longrightarrow> \<exists>p. snd (rangeLoop e ch kvs) = Panics p"
proof (induction kvs arbitrary: ch)
  case Nil
  then show ?case by simp
next
  case (Cons kv kvs)
  show ?case
  proof (cases "entryValid e kv")
    case True
    with Cons show ?thesis by (simp add: payloadMetric_valid)
  next
    case False
    then obtain p where "payloadMetric e kv = Inl p"
      using payloadMetric_invalid by blast
    then show ?thesis by simp
  qed
qed

subsection \<open>The paths through \<open>collect\<close>\<close>

lemma collect_RequestErr:
  "NewRequest w ''GET'' (URI e) = Inl err \<Longrightarrow>
   collect e w = ([], Returns (Some (RequestErr err)))"
  by (simp add: collect_def)

lemma collect_invalid_duration:
  "NewRequest w ''GET'' (URI e) = Inr req0 \<Longrightarrow> descErr (duration e) = Some p \<Longrightarrow>
   collect e w = ([], Panics p)"
  by (simp add: collect_def MustNewConstMetric_invalid send_Inl split: prod.split)

lemma collect_invalid_up:
  "NewRequest w ''GET'' (URI e) = Inr req0 \<Longrightarrow> descErr (duration e) = None \<Longrightarrow>
   descErr (up e) = Some p \<Longrightarrow> collect e w = ([durationMetric e w], Panics p)"
  by (simp add: collect_def MustNewConstMetric_invalid MustNewConstMetric_valid send_Inl send_Inr
      durationMetric_def split: prod.split option.split)

lemma collect_ScrapeErr:
  "NewRequest w ''GET'' (URI e) = Inr req0 \<Longrightarrow> descErr (duration e) = None \<Longrightarrow>
   descErr (up e) = None \<Longrightarrow> Do w (sentRequest e req0) = (resp, Some err) \<Longrightarrow>
   collect e w = ([durationMetric e w, upMetric e 0], Returns (Some (ScrapeErr err)))"
  by (simp add: collect_def sentRequest_def MustNewConstMetric_valid send_Inr
      durationMetric_def upMetric_def)

lemma collect_nil:
  "NewRequest w ''GET'' (URI e) = Inr req0 \<Longrightarrow> descErr (duration e) = None \<Longrightarrow>
   descErr (up e) = None \<Longrightarrow> Do w (sentRequest e req0) = (None, None) \<Longrightarrow>
   collect e w = ([durationMetric e w, upMetric e 1], Panics ''nil pointer dereference'')"
  by (simp add: collect_def sentRequest_def MustNewConstMetric_valid send_Inr
      durationMetric_def upMetric_def)

lemma collect_ReadErr:
  "NewRequest w ''GET'' (URI e) = Inr req0 \<Longrightarrow> descErr (duration e) = None \<Longrightarrow>
   descErr (up e) = None \<Longrightarrow> Do w (sentRequest e req0) = (Some resp, None) \<Longrightarrow>
   Body resp = Inl readErr \<Longrightarrow>
   collect e w = ([durationMetric e w, upMetric e 1], Returns (Some (ReadErr readErr)))"
  by (simp add: collect_def sentRequest_def MustNewConstMetric_valid send_Inr
      durationMetric_def upMetric_def)

lemma collect_StatusErr:
  "NewRequest w ''GET'' (URI e) = Inr req0 \<Longrightarrow> descErr (duration e) = None \<Longrightarrow>
   descErr (up e) = None \<Longrightarrow> Do w (sentRequest e req0) = (Some resp, None) \<Longrightarrow>
   Body resp = Inr body \<Longrightarrow> StatusCode resp \<noteq> 200 \<Longrightarrow>
   collect e w =
     ([durationMetric e w, upMetric e 1], Returns (Some (StatusErr (StatusCode resp))))"
  by (simp add: collect_def sentRequest_def MustNewConstMetric_valid send_Inr
      durationMetric_def upMetric_def)

lemma collect_JSONErr:
  "NewRequest w ''GET'' (URI e) = Inr req0 \<Longrightarrow> descErr (duration e) = None \<Longrightarrow>
   descErr (up e) = None \<Longrightarrow> Do w (sentRequest e req0) = (Some resp, None) \<Longrightarrow>
   Body resp = Inr body \<Longrightarrow> StatusCode resp = 200 \<Longrightarrow> Unmarshal body = Inl err \<Longrightarrow>
   collect e w = ([durationMetric e w, upMetric e 1], Returns (Some (JSONErr err)))"
  by (simp add: collect_def sentRequest_def MustNewConstMetric_valid send_Inr
      durationMetric_def upMetric_def)

lemma collect_loop:
  "NewRequest w ''GET'' (URI e) = Inr req0 \<Longrightarrow> descErr (duration e) = None \<Longrightarrow>
   descErr (up e) = None \<Longrightarrow> Do w (sentRequest e req0) = (Some resp, None) \<Longrightarrow>
   Body resp = Inr body \<Longrightarrow> StatusCode resp = 200 \<Longrightarrow> Unmarshal body = Inr data \<Longrightarrow>
   collect e w = rangeLoop e [durationMetric e w, upMetric e 1] (rangeOver w data)"
  by (simp add: collect_def sentRequest_def MustNewConstMetric_valid send_Inr
      durationMetric_def upMetric_def)

subsection \<open>Descriptors of the payload are not those of the exporter\<close>

lemma up_neq_duration: "up (NewExporter ns i u a p) \<noteq> duration (NewExporter ns i u a p)"
  by (simp add: NewExporter_def NewDesc_def)

lemma BuildFQName_inj: "BuildFQName ns [] a = BuildFQName ns [] b \<Longrightarrow> a = b"
  by (simp add: BuildFQName_def split: if_splits)

lemma fqName_entryMetric:
  "fqName (desc (entryMetric e kv)) = BuildFQName (namespace e) [] (keyToSnake (fst kv))"
  by (simp add: entryMetric_def NewDesc_def)

lemma helpText_entryMetric: "helpText (desc (entryMetric e kv)) = fst kv"
  by (simp add: entryMetric_def NewDesc_def)

lemma val_entryMetric: "val (entryMetric e kv) = snd kv"
  by (simp add: entryMetric_def)

lemma fqName_up: "fqName (up (NewExporter ns i u a p)) = BuildFQName ns [] (S ''up'')"
  by (simp add: NewExporter_def NewDesc_def)

lemma helpText_up: "helpText (up (NewExporter ns i u a p)) = S ''Could spring endpoint be reached''"
  by (simp add: NewExporter_def NewDesc_def)

lemma fqName_duration:
  "fqName (duration (NewExporter ns i u a p)) = BuildFQName ns [] (S ''response_duration'')"
  by (simp add: NewExporter_def NewDesc_def)

lemma helpText_duration:
  "helpText (duration (NewExporter ns i u a p))
   = S ''How long the spring endpoint took to deliver the metrics''"
  by (simp add: NewExporter_def NewDesc_def)

lemma namespace_NewExporter: "namespace (NewExporter ns i u a p) = ns"
  by (simp add: NewExporter_def)

lemma entry_not_up:
  "\<not> isUp (NewExporter ns i u a p) (entryMetric (NewExporter ns i u a p) kv)"
proof
  let ?e = "NewExporter ns i u a p"
  assume "isUp ?e (entryMetric ?e kv)"
  then have d: "desc (entryMetric ?e kv) = up ?e"
    by (simp only: isUp_def)
  have "fqName (desc (entryMetric ?e kv)) = fqName (up ?e)"
    by (simp only: d)
  then have "BuildFQName ns [] (keyToSnake (fst kv)) = BuildFQName ns [] (S ''up'')"
    by (simp only: fqName_entryMetric fqName_up namespace_NewExporter)
  then have "keyToSnake (fst kv) = S ''up''"
    by (rule BuildFQName_inj)
  then have "length (keyToSnake (fst kv)) = length (S ''up'')"
    by (simp only:)
  then have l1: "length (fst kv) = 2"
    by (simp add: keyToSnake_map)
  have "helpText (desc (entryMetric ?e kv)) = helpText (up ?e)"
    by (simp only: d)
  then have "fst kv = S ''Could spring endpoint be reached''"
    by (simp only: helpText_entryMetric helpText_up)
  then have "length (fst kv) = length (S ''Could spring endpoint be reached'')"
    by (simp only:)
  with l1 show False by simp
qed

lemma entry_not_duration:
  "\<not> isDuration (NewExporter ns i u a p) (entryMetric (NewExporter ns i u a p) kv)"
proof
  let ?e = "NewExporter ns i u a p"
  assume "isDuration ?e (entryMetric ?e kv)"
  then have d: "desc (entryMetric ?e kv) = duration ?e"
    by (simp only: isDuration_def)
  have "fqName (desc (entryMetric ?e kv)) = fqName (duration ?e)"
    by (simp only: d)
  then have "BuildFQName ns [] (keyToSnake (fst kv)) = BuildFQName ns [] (S ''response_duration'')"
    by (simp only: fqName_entryMetric fqName_duration namespace_NewExporter)
  then have "keyToSnake (fst kv) = S ''response_duration''"
    by (rule BuildFQName_inj)
  then have "length (keyToSnake (fst kv)) = length (S ''response_duration'')"
    by (simp only:)
  then have l1: "length (fst kv) = 17"
    by (simp add: keyToSnake_map)
  have "helpText (desc (entryMetric ?e kv)) = helpText (duration ?e)"
    by (simp only: d)
  then have "fst kv = S ''How long the spring endpoint took to deliver the metrics''"
    by (simp only: helpText_entryMetric helpText_duration)
  then have "length (fst kv) = length (S ''How long the spring endpoint took to deliver the metrics'')"
    by (simp only:)
  with l1 show False by simp
qed

subsection \<open>Filtering the channel\<close>

lemma isUp_upMetric: "isUp e (upMetric e v)"
  by (simp add: isUp_def upMetric_def)

lemma isDuration_durationMetric: "isDuration e (durationMetric e w)"
  by (simp add: isDuration_def durationMetric_def)

lemma val_upMetric: "val (upMetric e v) = v"
  by (simp add: upMetric_def)

lemma not_isUp_durationMetric:
  "\<not> isUp (NewExporter ns i u a p) (durationMetric (NewExporter ns i u a p) w)"
  using up_neq_duration [of ns i u a p]
  by (simp add: isUp_def durationMetric_def)

lemma not_isDuration_upMetric:
  "\<not> isDuration (NewExporter ns i u a p) (upMetric (NewExporter ns i u a p) v)"
  using up_neq_duration [of ns i u a p]
  by (simp add: isDuration_def upMetric_def)

lemma filter_isUp_entries:
  "filter (isUp (NewExporter ns i u a p)) (map (entryMetric (NewExporter ns i u a p)) xs) = []"
  by (induction xs) (simp_all add: entry_not_up)

lemma filter_isDuration_entries:
  "filter (isDuration (NewExporter ns i u a p)) (map (entryMetric (NewExporter ns i u a p)) xs) = []"
  by (induction xs) (simp_all add: entry_not_duration)

lemma payload_entries:
  "payload (NewExporter ns i u a p) (map (entryMetric (NewExporter ns i u a p)) xs)
   = map (entryMetric (NewExporter ns i u a p)) xs"
  unfolding payload_def by (induction xs) (simp_all add: entry_not_up entry_not_duration)

lemma payload_Nil: "payload e [] = []"
  by (simp add: payload_def)

lemma payload_meta: "payload e (durationMetric e w # upMetric e v # ps) = payload e ps"
  by (simp add: payload_def isUp_upMetric isDuration_durationMetric)

lemma filter_isUp_channel:
  assumes "e = NewExporter ns i u a p"
  shows "filter (isUp e) (durationMetric e w # upMetric e v # map (entryMetric e) xs)
         = [upMetric e v]"
  unfolding assms by (simp add: not_isUp_durationMetric isUp_upMetric filter_isUp_entries)

lemma filter_isDuration_channel:
  assumes "e = NewExporter ns i u a p"
  shows "filter (isDuration e) (durationMetric e w # upMetric e v # map (entryMetric e) xs)
         = [durationMetric e w]"
  unfolding assms
  by (simp add: not_isDuration_upMetric isDuration_durationMetric filter_isDuration_entries)

lemma payload_channel:
  assumes "e = NewExporter ns i u a p"
  shows "payload e (durationMetric e w # upMetric e v # map (entryMetric e) xs)
         = map (entryMetric e) xs"
  unfolding assms by (simp only: payload_meta payload_entries)

subsection \<open>Case analysis and the shape of the channel\<close>

text \<open>The ways through \<open>collect\<close> when the two descriptors of the exporter are valid.\<close>

lemma collect_cases [consumes 2, case_names RequestErr ScrapeErr NilResp ReadErr StatusErr JSONErr Loop]:
  assumes "descErr (duration e) = None" and "descErr (up e) = None"
  obtains
    (RequestErr) err where "NewRequest w ''GET'' (URI e) = Inl err"
      and "collect e w = ([], Returns (Some (RequestErr err)))"
  | (ScrapeErr) req0 resp err where "NewRequest w ''GET'' (URI e) = Inr req0"
      and "Do w (sentRequest e req0) = (resp, Some err)"
      and "collect e w = ([durationMetric e w, upMetric e 0], Returns (Some (ScrapeErr err)))"
  | (NilResp) req0 where "NewRequest w ''GET'' (URI e) = Inr req0"
      and "Do w (sentRequest e req0) = (None, None)"
      and "collect e w = ([durationMetric e w, upMetric e 1], Panics ''nil pointer dereference'')"
  | (ReadErr) req0 resp readErr where "NewRequest w ''GET'' (URI e) = Inr req0"
      and "Do w (sentRequest e req0) = (Some resp, None)" and "Body resp = Inl readErr"
      and "collect e w = ([durationMetric e w, upMetric e 1], Returns (Some (ReadErr readErr)))"
  | (StatusErr) req0 resp body where "NewRequest w ''GET'' (URI e) = Inr req0"
      and "Do w (sentRequest e req0) = (Some resp, None)" and "Body resp = Inr body"
      and "StatusCode resp \<noteq> 200"
      and "collect e w =
        ([durationMetric e w, upMetric e 1], Returns (Some (StatusErr (StatusCode resp))))"
  | (JSONErr) req0 resp body err where "NewRequest w ''GET'' (URI e) = Inr req0"
      and "Do w (sentRequest e req0) = (Some resp, None)" and "Body resp = Inr body"
      and "StatusCode resp = 200" and "Unmarshal body = Inl err"
      and "collect e w = ([durationMetric e w, upMetric e 1], Returns (Some (JSONErr err)))"
  | (Loop) req0 resp body data where "NewRequest w ''GET'' (URI e) = Inr req0"
      and "Do w (sentRequest e req0) = (Some resp, None)" and "Body resp = Inr body"
      and "StatusCode resp = 200" and "Unmarshal body = Inr data"
      and "collect e w = rangeLoop e [durationMetric e w, upMetric e 1] (rangeOver w data)"
proof (cases "NewRequest w ''GET'' (URI e)")
  case (Inl err)
  then show ?thesis using RequestErr collect_RequestErr by blast
next
  case req: (Inr req0)
  obtain r x where d: "Do w (sentRequest e req0) = (r, x)"
    by (cases "Do w (sentRequest e req0)")
  show ?thesis
  proof (cases x)
    case (Some err)
    with req d assms show ?thesis using ScrapeErr collect_ScrapeErr by blast
  next
    case None
    show ?thesis
    proof (cases r)
      case n: None
      with req d None assms show ?thesis using NilResp collect_nil by blast
    next
      case (Some resp)
      with d None have d': "Do w (sentRequest e req0) = (Some resp, None)" by simp
      show ?thesis
      proof (cases "Body resp")
        case (Inl readErr)
        with req d' assms show ?thesis using ReadErr collect_ReadErr by blast
      next
        case body: (Inr body)
        show ?thesis
        proof (cases "StatusCode resp = 200")
          case False
          with req d' body assms show ?thesis using StatusErr collect_StatusErr by blast
        next
          case True
          show ?thesis
          proof (cases "Unmarshal body")
            case (Inl err)
            with req d' body True assms show ?thesis using JSONErr collect_JSONErr by blast
          next
            case (Inr data)
            with req d' body True assms show ?thesis using Loop collect_loop by blast
          qed
        qed
      qed
    qed
  qed
qed

lemma collect_shape_valid:
  assumes "descErr (duration e) = None" and "descErr (up e) = None"
    and "NewRequest w ''GET'' (URI e) = Inr req0"
  obtains v xs where "v = 0 \<or> v = 1"
    and "fst (collect e w) = durationMetric e w # upMetric e v # map (entryMetric e) xs"
  using assms(1,2)
proof (cases rule: collect_cases [where w = w])
  case (RequestErr err)
  with assms show ?thesis by simp
next
  case (ScrapeErr req0 resp err)
  then have "fst (collect e w) = durationMetric e w # upMetric e 0 # map (entryMetric e) []"
    by simp
  then show ?thesis using that by blast
next
  case (NilResp req0)
  then have "fst (collect e w) = durationMetric e w # upMetric e 1 # map (entryMetric e) []"
    by simp
  then show ?thesis using that by blast
next
  case (ReadErr req0 resp readErr)
  then have "fst (collect e w) = durationMetric e w # upMetric e 1 # map (entryMetric e) []"
    by simp
  then show ?thesis using that by blast
next
  case (StatusErr req0 resp body)
  then have "fst (collect e w) = durationMetric e w # upMetric e 1 # map (entryMetric e) []"
    by simp
  then show ?thesis using that by blast
next
  case (JSONErr req0 resp body err)
  then have "fst (collect e w) = durationMetric e w # upMetric e 1 # map (entryMetric e) []"
    by simp
  then show ?thesis using that by blast
next
  case (Loop req0 resp body data)
  then have "fst (collect e w) = durationMetric e w # upMetric e 1 #
      map (entryMetric e) (takeWhile (entryValid e) (rangeOver w data))"
    by (simp add: rangeLoop_fst)
  then show ?thesis using that by blast
qed

lemma collect_shape:
  assumes e: "e = NewExporter ns i u a p"
  shows "fst (collect e w) = [] \<or>
         (\<exists>v xs. fst (collect e w) = durationMetric e w # upMetric e v # map (entryMetric e) xs)"
proof (cases "NewRequest w ''GET'' (URI e)")
  case (Inl err)
  then show ?thesis by (simp add: collect_RequestErr)
next
  case (Inr req0)
  show ?thesis
  proof (cases "validFrom 0 ns")
    case True
    then have "descErr (duration e) = None" and "descErr (up e) = None"
      unfolding e by (simp_all add: descErr_up descErr_duration)
    from this Inr show ?thesis by (rule collect_shape_valid) blast
  next
    case False
    then have "descErr (duration e) \<noteq> None"
      unfolding e by (simp add: descErr_duration)
    then obtain q where "descErr (duration e) = Some q" by blast
    with Inr have "collect e w = ([], Panics q)" by (rule collect_invalid_duration)
    then show ?thesis by simp
  qed
qed

subsection \<open>The examples, evaluated\<close>

lemma NewRequest_server:
  "w = server r \<Longrightarrow> NewRequest w ''GET'' (URI springExporter) = Inr plainRequest"
  by (simp add: server_def parseRequest_def springExporter_def NewExporter_def)

lemma NewRequest_dashed:
  "w = server r \<Longrightarrow> NewRequest w ''GET'' (URI dashed) = Inr plainRequest"
  by (simp add: server_def parseRequest_def dashed_def NewExporter_def)

lemma NewRequest_misconfigured:
  "w = server r \<Longrightarrow> NewRequest w ''GET'' (URI misconfigured) = Inl ''missing protocol scheme''"
  by (simp add: server_def parseRequest_def misconfigured_def NewExporter_def)

lemma Do_server: "w = server r \<Longrightarrow> Do w req = r"
  by (simp add: server_def)

lemma spring_duration: "descErr (duration springExporter) = None"
  unfolding springExporter_def descErr_duration by (simp add: isValidLegacyRune_def)

lemma spring_up: "descErr (up springExporter) = None"
  unfolding springExporter_def descErr_up by (simp add: isValidLegacyRune_def)

lemma dashed_duration: "descErr (duration dashed) = Some ''is not a valid metric name''"
proof -
  have "\<not> validFrom 0 (S ''my-ns'')"
    by (simp add: isValidLegacyRune_def)
  then have "descErr (duration dashed) \<noteq> None"
    unfolding dashed_def descErr_duration .
  then show ?thesis
    by (simp add: dashed_def NewExporter_def NewDesc_def split: if_splits)
qed

lemma collect_dashed:
  "w = server r \<Longrightarrow> collect dashed w = ([], Panics ''is not a valid metric name'')"
  by (rule collect_invalid_duration [OF NewRequest_dashed dashed_duration])

lemma collect_misconfigured:
  "w = server r \<Longrightarrow>
   collect misconfigured w = ([], Returns (Some (RequestErr ''missing protocol scheme'')))"
  by (rule collect_RequestErr [OF NewRequest_misconfigured])

lemma inFloat64_small: "\<bar>x\<bar> \<le> 1000 \<Longrightarrow> inFloat64 x"
  by (simp add: inFloat64_def)

lemma Unmarshal_twoDisks:
  "Unmarshal (Some (JObject [(S ''disk free'', JNumber 999), (S ''disk.free'', JNumber 5)]))
   = Inr [(S ''disk free'', 999), (S ''disk.free'', 5)]"
  by (simp add: inFloat64_small)

lemma rangeOver_twoDisks:
  "rangeOver twoDisks [(S ''disk free'', 999), (S ''disk.free'', 5)]
   = [(S ''disk free'', 999), (S ''disk.free'', 5)]"
  by (simp add: rangeOver_def twoDisks_def server_def)

lemma entryValid_spring: "k \<noteq> [] \<Longrightarrow> entryValid springExporter (k, v)"
  by (simp add: entryValid_iff springExporter_def NewExporter_def isValidLegacyRune_def)

lemma collect_refused:
  "collect springExporter refused =
     ([durationMetric springExporter refused, upMetric springExporter 0],
      Returns (Some (ScrapeErr ''connection refused'')))"
  by (rule collect_ScrapeErr [OF NewRequest_server [OF refused_def] spring_duration spring_up
        Do_server [OF refused_def]])

lemma collect_redirecting:
  "collect springExporter redirecting =
     ([durationMetric springExporter redirecting, upMetric springExporter 0],
      Returns (Some (ScrapeErr ''stopped after 10 redirects'')))"
  by (rule collect_ScrapeErr [OF NewRequest_server [OF redirecting_def] spring_duration spring_up
        Do_server [OF redirecting_def]])

lemma collect_notFound:
  "collect springExporter notFound =
     ([durationMetric springExporter notFound, upMetric springExporter 1],
      Returns (Some (StatusErr 404)))"
proof -
  have "collect springExporter notFound =
     ([durationMetric springExporter notFound, upMetric springExporter 1],
      Returns (Some (StatusErr (StatusCode \<lparr>StatusCode = 404, Body = Inr None\<rparr>))))"
    by (rule collect_StatusErr [OF NewRequest_server [OF notFound_def] spring_duration spring_up
          Do_server [OF notFound_def]]) simp_all
  then show ?thesis by simp
qed

lemma collect_twoDisks:
  "collect springExporter twoDisks =
     (durationMetric springExporter twoDisks # upMetric springExporter 1 #
      map (entryMetric springExporter) [(S ''disk free'', 999), (S ''disk.free'', 5)],
      Returns None)"
proof -
  have "collect springExporter twoDisks =
     rangeLoop springExporter [durationMetric springExporter twoDisks, upMetric springExporter 1]
       (rangeOver twoDisks [(S ''disk free'', 999), (S ''disk.free'', 5)])"
    by (rule collect_loop [OF NewRequest_server [OF twoDisks_def] spring_duration spring_up
          Do_server [OF twoDisks_def] _ _ Unmarshal_twoDisks]) simp_all
  also have "\<dots> =
     ([durationMetric springExporter twoDisks, upMetric springExporter 1] @
      map (entryMetric springExporter) [(S ''disk free'', 999), (S ''disk.free'', 5)],
      Returns None)"
    unfolding rangeOver_twoDisks by (rule rangeLoop_valid) (simp add: entryValid_spring)
  finally show ?thesis by simp
qed

subsection \<open>The measurements about the scrape\<close>

text \<open>
  C1, as amended. In every cycle whose request could be built and whose exporter has
  valid names for its two descriptors, exactly one \<^verbatim>\<open>up\<close> measurement is sent, of value
  0 or 1, and exactly one \<^verbatim>\<open>response_duration\<close> measurement, whether the cycle fails
  later or not; payload measurements are sent only when \<open>Do\<close> returned a response of
  status 200 without an error and its body was read and decoded into a map. (When the
  request cannot be built, and when the names are not valid, nothing is sent: these are
  the counterexamples below.)
\<close>

theorem collect_meta_once:
  assumes e: "e = NewExporter ns insecure uri user password"
    and duration: "descErr (duration e) = None"
    and up: "descErr (up e) = None"
    and req: "NewRequest w ''GET'' (URI e) = Inr req0"
  shows "length (filter (isUp e) (fst (collect e w))) = 1 \<and>
         (\<forall>m\<in>set (filter (isUp e) (fst (collect e w))). val m = 0 \<or> val m = 1) \<and>
         length (filter (isDuration e) (fst (collect e w))) = 1 \<and>
         (payload e (fst (collect e w)) \<noteq> [] \<longrightarrow>
            (\<exists>resp body data. Do w (sentRequest e req0) = (Some resp, None) \<and>
               StatusCode resp = 200 \<and> Body resp = Inr body \<and> Unmarshal body = Inr data))"
proof -
  from duration up req obtain v xs where v: "v = 0 \<or> v = 1"
    and ch: "fst (collect e w) = durationMetric e w # upMetric e v # map (entryMetric e) xs"
    by (rule collect_shape_valid)
  have u: "filter (isUp e) (fst (collect e w)) = [upMetric e v]"
    unfolding ch by (rule filter_isUp_channel [OF e])
  have d: "filter (isDuration e) (fst (collect e w)) = [durationMetric e w]"
    unfolding ch by (rule filter_isDuration_channel [OF e])
  have p: "payload e (fst (collect e w)) \<noteq> [] \<longrightarrow>
            (\<exists>resp body data. Do w (sentRequest e req0) = (Some resp, None) \<and>
               StatusCode resp = 200 \<and> Body resp = Inr body \<and> Unmarshal body = Inr data)"
    using duration up
  proof (cases rule: collect_cases [where w = w])
    case (Loop req1 resp body data)
    with req show ?thesis by auto
  qed (simp_all add: payload_def isUp_upMetric isDuration_durationMetric)
  from u d p v show ?thesis by (simp add: val_upMetric)
qed

theorem collect_meta_once_counterexample:
  "fst (collect misconfigured twoDisks) = [] \<and>
   length (filter (isUp misconfigured) (fst (collect misconfigured twoDisks))) \<noteq> 1 \<and>
   length (filter (isDuration misconfigured) (fst (collect misconfigured twoDisks))) \<noteq> 1 \<and>
   fst (collect dashed twoDisks) = [] \<and>
   length (filter (isUp dashed) (fst (collect dashed twoDisks))) \<noteq> 1 \<and>
   length (filter (isDuration dashed) (fst (collect dashed twoDisks))) \<noteq> 1"
  by (simp add: collect_misconfigured [OF twoDisks_def] collect_dashed [OF twoDisks_def])

theorem collect_meta_once_witness:
  "length (filter (isUp springExporter) (fst (collect springExporter refused))) = 1 \<and>
   list_all (\<lambda>m. val m = 0 \<or> val m = 1)
     (filter (isUp springExporter) (fst (collect springExporter refused))) \<and>
   length (filter (isDuration springExporter) (fst (collect springExporter refused))) = 1 \<and>
   payload springExporter (fst (collect springExporter refused)) = [] \<and>
   payload springExporter (fst (collect springExporter twoDisks)) \<noteq> [] \<and>
   (\<exists>resp body data. Do twoDisks (sentRequest springExporter plainRequest) = (Some resp, None) \<and>
      StatusCode resp = 200 \<and> Body resp = Inr body \<and> Unmarshal body = Inr data)"
proof -
  note r = collect_meta_once [OF springExporter_def spring_duration spring_up
      NewRequest_server [OF refused_def]]
  note t = collect_meta_once [OF springExporter_def spring_duration spring_up
      NewRequest_server [OF twoDisks_def]]
  from r have a: "length (filter (isUp springExporter) (fst (collect springExporter refused))) = 1 \<and>
     list_all (\<lambda>m. val m = 0 \<or> val m = 1)
       (filter (isUp springExporter) (fst (collect springExporter refused))) \<and>
     length (filter (isDuration springExporter) (fst (collect springExporter refused))) = 1"
    by (simp only: list_all_iff) blast
  have b: "payload springExporter (fst (collect springExporter refused)) = []"
    unfolding collect_refused by (simp add: payload_meta payload_Nil)
  have ne: "payload springExporter (fst (collect springExporter twoDisks)) \<noteq> []"
    unfolding collect_twoDisks fst_conv payload_channel [OF springExporter_def] by simp
  with t have c: "\<exists>resp body data.
      Do twoDisks (sentRequest springExporter plainRequest) = (Some resp, None) \<and>
      StatusCode resp = 200 \<and> Body resp = Inr body \<and> Unmarshal body = Inr data"
    by blast
  from a b ne c show ?thesis by blast
qed

lemma filter_singletonD: "filter P xs = [a] \<Longrightarrow> x \<in> set xs \<Longrightarrow> P x \<Longrightarrow> x = a"
proof -
  assume f: "filter P xs = [a]" and x: "x \<in> set xs" "P x"
  from x have "x \<in> set (filter P xs)" by simp
  then show "x = a" unfolding f by simp
qed

lemma collect_up_filter:
  assumes e: "e = NewExporter ns i u a p"
    and duration: "descErr (duration e) = None"
    and up: "descErr (up e) = None"
    and req: "NewRequest w ''GET'' (URI e) = Inr req0"
  shows "filter (isUp e) (fst (collect e w))
         = [upMetric e (if snd (Do w (sentRequest e req0)) = None then 1 else 0)]"
proof -
  have ch: "filter (isUp e) (durationMetric e w # upMetric e v # map (entryMetric e) xs)
      = [upMetric e v]" for v xs
    by (rule filter_isUp_channel [OF e])
  from duration up show ?thesis
  proof (cases rule: collect_cases [where w = w])
    case (RequestErr err)
    with req show ?thesis by simp
  next
    case (ScrapeErr req1 resp err)
    with req ch [of 0 "[]"] show ?thesis by simp
  next
    case (NilResp req1)
    with req ch [of 1 "[]"] show ?thesis by simp
  next
    case (ReadErr req1 resp readErr)
    with req ch [of 1 "[]"] show ?thesis by simp
  next
    case (StatusErr req1 resp body)
    with req ch [of 1 "[]"] show ?thesis by simp
  next
    case (JSONErr req1 resp body err)
    with req ch [of 1 "[]"] show ?thesis by simp
  next
    case (Loop req1 resp body data)
    with req ch [of 1 "takeWhile (entryValid e) (rangeOver w data)"] show ?thesis
      by (simp add: rangeLoop_fst)
  qed
qed

text \<open>
  C2, as amended. For an exporter whose two descriptors have valid names: whenever \<open>Do\<close>
  returned without an error (a response of whatever status code), the \<^verbatim>\<open>up\<close>
  measurements sent in the cycle are one measurement of value 1; whenever \<open>Do\<close>
  returned an error, with or without a response, they are one measurement of value 0;
  and an \<^verbatim>\<open>up\<close> measurement of value 0 is sent only in a cycle whose request was built
  and in which \<open>Do\<close> returned an error.
\<close>

theorem collect_up_value:
  assumes e: "e = NewExporter ns insecure uri user password"
    and duration: "descErr (duration e) = None"
    and up: "descErr (up e) = None"
  shows "(\<forall>req0 resp. NewRequest w ''GET'' (URI e) = Inr req0 \<and>
            Do w (sentRequest e req0) = (resp, None) \<longrightarrow>
            map val (filter (isUp e) (fst (collect e w))) = [1]) \<and>
         (\<forall>req0 resp err. NewRequest w ''GET'' (URI e) = Inr req0 \<and>
            Do w (sentRequest e req0) = (resp, Some err) \<longrightarrow>
            map val (filter (isUp e) (fst (collect e w))) = [0]) \<and>
         (\<forall>m\<in>set (fst (collect e w)). isUp e m \<and> val m = 0 \<longrightarrow>
            (\<exists>req0 resp err. NewRequest w ''GET'' (URI e) = Inr req0 \<and>
               Do w (sentRequest e req0) = (resp, Some err)))"
proof (intro conjI allI impI ballI)
  fix req0 resp
  assume "NewRequest w ''GET'' (URI e) = Inr req0 \<and> Do w (sentRequest e req0) = (resp, None)"
  then show "map val (filter (isUp e) (fst (collect e w))) = [1]"
    using collect_up_filter [OF e duration up, of w req0] by (simp add: val_upMetric)
next
  fix req0 resp err
  assume "NewRequest w ''GET'' (URI e) = Inr req0 \<and>
          Do w (sentRequest e req0) = (resp, Some err)"
  then show "map val (filter (isUp e) (fst (collect e w))) = [0]"
    using collect_up_filter [OF e duration up, of w req0] by (simp add: val_upMetric)
next
  fix m
  assume m: "m \<in> set (fst (collect e w))" and u: "isUp e m \<and> val m = 0"
  show "\<exists>req0 resp err. NewRequest w ''GET'' (URI e) = Inr req0 \<and>
          Do w (sentRequest e req0) = (resp, Some err)"
  proof (cases "NewRequest w ''GET'' (URI e)")
    case (Inl err)
    then have "fst (collect e w) = []" by (simp add: collect_RequestErr)
    with m show ?thesis by simp
  next
    case (Inr req0)
    note f = collect_up_filter [OF e duration up Inr]
    from filter_singletonD [OF f m] u
    have "m = upMetric e (if snd (Do w (sentRequest e req0)) = None then 1 else 0)" by simp
    with u have "snd (Do w (sentRequest e req0)) \<noteq> None"
      by (auto simp add: val_upMetric split: if_splits)
    then obtain resp err where "Do w (sentRequest e req0) = (resp, Some err)"
      by (cases "Do w (sentRequest e req0)") auto
    with Inr show ?thesis by blast
  qed
qed

theorem collect_up_value_counterexample:
  "fst (Do redirecting (sentRequest springExporter plainRequest))
     = Some \<lparr>StatusCode = 302, Body = Inr None\<rparr> \<and>
   map val (filter (isUp springExporter) (fst (collect springExporter redirecting))) = [0] \<and>
   fst (Do notFound (sentRequest dashed plainRequest))
     = Some \<lparr>StatusCode = 404, Body = Inr None\<rparr> \<and>
   filter (isUp dashed) (fst (collect dashed notFound)) = []"
proof -
  have "filter (isUp springExporter) (fst (collect springExporter redirecting))
        = [upMetric springExporter 0]"
    unfolding collect_redirecting fst_conv
    using filter_isUp_channel [OF springExporter_def, of redirecting 0 "[]"] by simp
  then show ?thesis
    by (simp add: val_upMetric Do_server [OF redirecting_def] Do_server [OF notFound_def]
        collect_dashed [OF notFound_def])
qed

theorem collect_up_value_witness:
  "map val (filter (isUp springExporter) (fst (collect springExporter notFound))) = [1] \<and>
   map val (filter (isUp springExporter) (fst (collect springExporter refused))) = [0] \<and>
   upMetric springExporter 0 \<in> set (fst (collect springExporter refused)) \<and>
   (\<exists>req0 resp err. NewRequest refused ''GET'' (URI springExporter) = Inr req0 \<and>
      Do refused (sentRequest springExporter req0) = (resp, Some err))"
proof -
  note h = collect_up_value [OF springExporter_def spring_duration spring_up]
  have "NewRequest notFound ''GET'' (URI springExporter) = Inr plainRequest \<and>
        Do notFound (sentRequest springExporter plainRequest)
          = (Some \<lparr>StatusCode = 404, Body = Inr None\<rparr>, None)"
    by (simp add: NewRequest_server [OF notFound_def] Do_server [OF notFound_def])
  with h [of notFound]
  have a: "map val (filter (isUp springExporter) (fst (collect springExporter notFound))) = [1]"
    by blast
  have "NewRequest refused ''GET'' (URI springExporter) = Inr plainRequest \<and>
        Do refused (sentRequest springExporter plainRequest) = (None, Some ''connection refused'')"
    by (simp add: NewRequest_server [OF refused_def] Do_server [OF refused_def])
  with h [of refused]
  have a': "map val (filter (isUp springExporter) (fst (collect springExporter refused))) = [0]"
    by blast
  have b: "upMetric springExporter 0 \<in> set (fst (collect springExporter refused))"
    by (simp add: collect_refused)
  moreover have "isUp springExporter (upMetric springExporter 0) \<and>
      val (upMetric springExporter 0) = 0"
    by (simp add: isUp_upMetric val_upMetric)
  ultimately have c: "\<exists>req0 resp err.
      NewRequest refused ''GET'' (URI springExporter) = Inr req0 \<and>
      Do refused (sentRequest springExporter req0) = (resp, Some err)"
    using h [of refused] by blast
  from a a' b c show ?thesis by blast
qed

subsection \<open>Errors after a response\<close>

theorem collect_read_before_status_counterexample:
  "StatusCode \<lparr>StatusCode = 500, Body = Inl ''unexpected EOF''\<rparr> \<noteq> 200 \<and>
   Do brokenBody500 (sentRequest springExporter plainRequest)
     = (Some \<lparr>StatusCode = 500, Body = Inl ''unexpected EOF''\<rparr>, None) \<and>
   snd (collect springExporter brokenBody500) = Returns (Some (ReadErr ''unexpected EOF'')) \<and>
   snd (collect springExporter brokenBody500) \<noteq> Returns (Some (StatusErr 500)) \<and>
   Do notFound (sentRequest dashed plainRequest)
     = (Some \<lparr>StatusCode = 404, Body = Inr None\<rparr>, None) \<and>
   snd (collect dashed notFound) = Panics ''is not a valid metric name'' \<and>
   snd (collect dashed notFound) \<noteq> Returns (Some (StatusErr 404))"
proof -
  have "collect springExporter brokenBody500 =
     ([durationMetric springExporter brokenBody500, upMetric springExporter 1],
      Returns (Some (ReadErr ''unexpected EOF'')))"
    by (rule collect_ReadErr [OF NewRequest_server [OF brokenBody500_def] spring_duration
          spring_up Do_server [OF brokenBody500_def]]) simp
  then show ?thesis
    by (simp add: Do_server [OF brokenBody500_def] Do_server [OF notFound_def]
        collect_dashed [OF notFound_def])
qed

text \<open>
  C5, as amended. For an exporter whose two descriptors have valid names, after a
  response is received the body is read first and the status is checked second. A
  failure to read the body is the error of the cycle whatever the status code is; a
  status other than 200 is reported as the error only when the body has been read. In
  both cases no payload measurement is sent.
\<close>

theorem collect_read_before_status:
  assumes "NewRequest w ''GET'' (URI e) = Inr req0"
    and "descErr (duration e) = None"
    and "descErr (up e) = None"
    and "Do w (sentRequest e req0) = (Some resp, None)"
  shows "(\<forall>readErr. Body resp = Inl readErr \<longrightarrow>
            snd (collect e w) = Returns (Some (ReadErr readErr)) \<and>
            payload e (fst (collect e w)) = []) \<and>
         (\<forall>body. Body resp = Inr body \<and> StatusCode resp \<noteq> 200 \<longrightarrow>
            snd (collect e w) = Returns (Some (StatusErr (StatusCode resp))) \<and>
            payload e (fst (collect e w)) = [])"
  using assms
  by (auto simp add: collect_ReadErr collect_StatusErr payload_meta payload_Nil)

theorem collect_read_before_status_witness:
  "snd (collect springExporter brokenBody500) = Returns (Some (ReadErr ''unexpected EOF'')) \<and>
   payload springExporter (fst (collect springExporter brokenBody500)) = [] \<and>
   snd (collect springExporter notFound) = Returns (Some (StatusErr 404)) \<and>
   payload springExporter (fst (collect springExporter notFound)) = []"
  using collect_read_before_status [OF NewRequest_server [OF brokenBody500_def]
      spring_duration spring_up Do_server [OF brokenBody500_def]]
    collect_read_before_status [OF NewRequest_server [OF notFound_def]
      spring_duration spring_up Do_server [OF notFound_def]]
  by simp

subsection \<open>Order of sending\<close>

text \<open>
  C6. What a cycle sends is nothing at all, or the \<^verbatim>\<open>response_duration\<close> measurement
  first, the \<^verbatim>\<open>up\<close> measurement second, and after these two exactly the payload
  measurements of the cycle.
\<close>

theorem collect_order:
  assumes e: "e = NewExporter ns insecure uri user password"
  shows "fst (collect e w) = [] \<or>
         (\<exists>v. fst (collect e w) = durationMetric e w # upMetric e v # payload e (fst (collect e w)))"
proof -
  from collect_shape [OF e, of w] show ?thesis
  proof
    assume "fst (collect e w) = []"
    then show ?thesis by simp
  next
    assume "\<exists>v xs. fst (collect e w) = durationMetric e w # upMetric e v # map (entryMetric e) xs"
    then obtain v xs where
      ch: "fst (collect e w) = durationMetric e w # upMetric e v # map (entryMetric e) xs"
      by blast
    have "payload e (fst (collect e w)) = map (entryMetric e) xs"
      unfolding ch by (rule payload_channel [OF e])
    with ch show ?thesis by auto
  qed
qed

theorem collect_order_witness:
  "fst (collect springExporter twoDisks) =
     [durationMetric springExporter twoDisks, upMetric springExporter 1,
      entryMetric springExporter (S ''disk free'', 999),
      entryMetric springExporter (S ''disk.free'', 5)] \<and>
   fst (collect springExporter twoDisks) =
     durationMetric springExporter twoDisks # upMetric springExporter 1 #
     payload springExporter (fst (collect springExporter twoDisks))"
proof -
  have a: "fst (collect springExporter twoDisks) =
     [durationMetric springExporter twoDisks, upMetric springExporter 1,
      entryMetric springExporter (S ''disk free'', 999),
      entryMetric springExporter (S ''disk.free'', 5)]"
    by (simp add: collect_twoDisks)
  from collect_order [OF springExporter_def, of twoDisks]
  obtain v where v: "fst (collect springExporter twoDisks) =
      durationMetric springExporter twoDisks # upMetric springExporter v #
      payload springExporter (fst (collect springExporter twoDisks))"
    unfolding a by blast
  then have "upMetric springExporter v = upMetric springExporter 1"
    unfolding a by simp
  with v a show ?thesis by simp
qed

subsection \<open>A request that cannot be built\<close>

text \<open>
  C7. When the request cannot be built, \<open>collect\<close> returns that error and has sent
  nothing: no \<^verbatim>\<open>up\<close> and no \<^verbatim>\<open>response_duration\<close> measurement. \<open>Collect\<close> logs the
  error.
\<close>

theorem collect_construction_failure:
  assumes "NewRequest w ''GET'' (URI e) = Inl err"
  shows "collect e w = ([], Returns (Some (RequestErr err))) \<and>
         filter (isUp e) (fst (collect e w)) = [] \<and>
         filter (isDuration e) (fst (collect e w)) = [] \<and>
         Collect e w = ([], Returns [RequestErr err])"
  using assms by (simp add: collect_RequestErr Collect_def)

theorem collect_construction_failure_witness:
  "collect misconfigured twoDisks = ([], Returns (Some (RequestErr ''missing protocol scheme''))) \<and>
   filter (isUp misconfigured) (fst (collect misconfigured twoDisks)) = [] \<and>
   filter (isDuration misconfigured) (fst (collect misconfigured twoDisks)) = [] \<and>
   Collect misconfigured twoDisks = ([], Returns [RequestErr ''missing protocol scheme''])"
  by (rule collect_construction_failure [OF NewRequest_misconfigured [OF twoDisks_def]])

subsection \<open>The body \<^verbatim>\<open>null\<close>\<close>

theorem collect_null_body_counterexample:
  "Do nullBody (sentRequest dashed plainRequest)
     = (Some \<lparr>StatusCode = 200, Body = Inr (Some JNull)\<rparr>, None) \<and>
   collect dashed nullBody = ([], Panics ''is not a valid metric name'')"
  by (simp add: Do_server [OF nullBody_def] collect_dashed [OF nullBody_def])

text \<open>
  C9, as amended. For an exporter whose two descriptors have valid names, a response of
  status 200 whose body is the document \<^verbatim>\<open>null\<close> gives a cycle without error that sends
  the duration and \<^verbatim>\<open>up = 1\<close> and no payload measurement.
\<close>

theorem collect_null_body:
  assumes "NewRequest w ''GET'' (URI e) = Inr req0"
    and "descErr (duration e) = None"
    and "descErr (up e) = None"
    and "Do w (sentRequest e req0) = (Some resp, None)"
    and "StatusCode resp = 200"
    and "Body resp = Inr (Some JNull)"
  shows "collect e w = ([durationMetric e w, upMetric e 1], Returns None) \<and>
         payload e (fst (collect e w)) = [] \<and>
         Collect e w = ([durationMetric e w, upMetric e 1], Returns [])"
proof -
  have "Unmarshal (Some JNull) = Inr []" by simp
  with assms have "collect e w =
      rangeLoop e [durationMetric e w, upMetric e 1] (rangeOver w [])"
    by (simp add: collect_loop)
  then have c: "collect e w = ([durationMetric e w, upMetric e 1], Returns None)"
    by (simp add: rangeOver_def)
  then show ?thesis by (simp add: payload_meta payload_Nil Collect_def)
qed

theorem collect_null_body_witness:
  "collect springExporter nullBody =
     ([durationMetric springExporter nullBody, upMetric springExporter 1], Returns None) \<and>
   payload springExporter (fst (collect springExporter nullBody)) = [] \<and>
   Collect springExporter nullBody =
     ([durationMetric springExporter nullBody, upMetric springExporter 1], Returns [])"
  by (rule collect_null_body [OF NewRequest_server [OF nullBody_def] spring_duration spring_up
        Do_server [OF nullBody_def]]) simp_all

subsection \<open>The payload: one measurement for each key\<close>

lemma storeMembers_distinct:
  "distinct (map fst m) \<Longrightarrow> distinct (map fst (storeMembers kvs m))"
  by (induction kvs m rule: storeMembers.induct) (simp_all add: distinct_update)

lemma Unmarshal_distinct: "Unmarshal body = Inr data \<Longrightarrow> distinct (map fst data)"
  by (cases body rule: Unmarshal.cases) (auto simp add: storeMembers_distinct split: if_splits)

lemma filter_key_distinct:
  "distinct (map fst xs) \<Longrightarrow> (k, v) \<in> set xs \<Longrightarrow> filter (\<lambda>kv. fst kv = k) xs = [(k, v)]"
proof (induction xs)
  case Nil
  then show ?case by simp
next
  case (Cons x xs)
  show ?case
  proof (cases "fst x = k")
    case True
    with Cons.prems have "x = (k, v)"
      by (cases x) (auto simp add: rev_image_eqI)
    moreover from True Cons.prems have "filter (\<lambda>kv. fst kv = k) xs = []"
      by (auto simp add: filter_empty_conv rev_image_eqI)
    ultimately show ?thesis by simp
  next
    case False
    with Cons show ?thesis by auto
  qed
qed

lemma mset_rangeOver: "mset (rangeOver w data) = mset data"
  by (simp add: rangeOver_def)

lemma set_rangeOver: "set (rangeOver w data) = set data"
  by (simp add: rangeOver_def)

lemma filter_rangeOver: "filter P (rangeOver w data) = rangeOver w (filter P data)"
  by (simp add: rangeOver_def filter_sort)

lemma rangeOver_single: "rangeOver w [kv] = [kv]"
  by (simp add: rangeOver_def)

text \<open>
  \<open>rangeOver\<close> stands for any order in which the entries of a map may be visited:
  every arrangement of the entries is the order of some ranking of the keys.
\<close>

lemma sorted_map_Suc: "sorted (map Suc xs) = sorted xs"
  by (induction xs) auto

lemma rank_exists:
  "distinct (map fst ys) \<Longrightarrow>
   \<exists>rank :: 'k \<Rightarrow> nat. sorted (map (\<lambda>kv. rank (fst kv)) ys) \<and> inj_on rank (fst ` set ys)"
proof (induction ys)
  case Nil
  then show ?case by simp
next
  case (Cons y ys)
  then obtain rank :: "'k \<Rightarrow> nat"
    where s: "sorted (map (\<lambda>kv. rank (fst kv)) ys)" and i: "inj_on rank (fst ` set ys)"
    by auto
  define rank' where "rank' k = (if k = fst y then 0 else Suc (rank k))" for k
  from Cons.prems have ny: "\<forall>kv\<in>set ys. fst kv \<noteq> fst y"
    by (force simp add: image_iff)
  then have eq: "map (\<lambda>kv. rank' (fst kv)) ys = map Suc (map (\<lambda>kv. rank (fst kv)) ys)"
    by (simp add: rank'_def)
  from s have "sorted (map (\<lambda>kv. rank' (fst kv)) ys)"
    by (simp only: eq sorted_map_Suc)
  moreover have "rank' (fst y) = 0"
    by (simp add: rank'_def)
  ultimately have "sorted (map (\<lambda>kv. rank' (fst kv)) (y # ys))"
    by simp
  moreover have "inj_on rank' (fst ` set (y # ys))"
  proof (rule inj_onI)
    fix a b
    assume a: "a \<in> fst ` set (y # ys)" and b: "b \<in> fst ` set (y # ys)"
      and r: "rank' a = rank' b"
    show "a = b"
    proof (cases "a = fst y \<or> b = fst y")
      case True
      with r show ?thesis by (auto simp add: rank'_def split: if_splits)
    next
      case False
      with a b have "a \<in> fst ` set ys" and "b \<in> fst ` set ys" by auto
      moreover from False r have "rank a = rank b" by (simp add: rank'_def)
      ultimately show ?thesis using i by (blast dest: inj_onD)
    qed
  qed
  ultimately show ?case by blast
qed

lemma rangeOver_any_order:
  assumes d: "distinct (map fst data)" and m: "mset ys = mset data"
  shows "\<exists>rank. rangeOver (w\<lparr>rangeOrder := rank\<rparr>) data = ys"
proof -
  have "image_mset fst (mset ys) = image_mset fst (mset data)"
    by (simp only: m)
  then have "mset (map fst ys) = mset (map fst data)"
    by (simp only: mset_map)
  then have "distinct (map fst ys) = distinct (map fst data)"
    by (rule mset_eq_imp_distinct_iff)
  with d have dy: "distinct (map fst ys)"
    by (simp only:)
  from rank_exists [OF dy] obtain rank :: "gostring \<Rightarrow> nat"
    where s: "sorted (map (\<lambda>kv. rank (fst kv)) ys)" and i: "inj_on rank (fst ` set ys)"
    by blast
  from m have se: "set ys = set data" by (rule mset_eq_setD)
  have key: "(rank (fst k) = rank (fst x)) = (fst x = fst k)"
    if "k \<in> set ys" and "x \<in> set ys" for k x
  proof -
    from that have mk: "fst k \<in> fst ` set ys" and mx: "fst x \<in> fst ` set ys"
      by simp_all
    show ?thesis
    proof
      assume "rank (fst k) = rank (fst x)"
      from inj_onD [OF i this mk mx] show "fst x = fst k" by (rule sym)
    next
      assume "fst x = fst k"
      then show "rank (fst k) = rank (fst x)" by (simp only:)
    qed
  qed
  have f: "filter (\<lambda>x. rank (fst k) = rank (fst x)) ys
           = filter (\<lambda>x. rank (fst k) = rank (fst x)) data" if k: "k \<in> set ys" for k
  proof -
    from k have ky: "(fst k, snd k) \<in> set ys" by simp
    with se have kd: "(fst k, snd k) \<in> set data" by simp
    have "filter (\<lambda>x. rank (fst k) = rank (fst x)) ys = filter (\<lambda>x. fst x = fst k) ys"
      by (rule filter_cong [OF refl]) (rule key [OF k])
    also have "\<dots> = [(fst k, snd k)]"
      using dy ky by (rule filter_key_distinct)
    also have "\<dots> = filter (\<lambda>x. fst x = fst k) data"
      using d kd by (rule filter_key_distinct [symmetric])
    also have "\<dots> = filter (\<lambda>x. rank (fst k) = rank (fst x)) data"
    proof (rule filter_cong [OF refl])
      fix x
      assume "x \<in> set data"
      then have "x \<in> set ys" by (simp only: se)
      from key [OF k this] show "(fst x = fst k) = (rank (fst k) = rank (fst x))"
        by (rule sym)
    qed
    finally show ?thesis .
  qed
  have "sort_key (\<lambda>kv. rank (fst kv)) data = ys"
  proof (rule properties_for_sort_key)
    show "mset ys = mset data" by (rule m)
    show "sorted (map (\<lambda>kv. rank (fst kv)) ys)" by (rule s)
    show "filter (\<lambda>x. rank (fst k) = rank (fst x)) ys
           = filter (\<lambda>x. rank (fst k) = rank (fst x)) data" if "k \<in> set ys" for k
      using that by (rule f)
  qed
  then have r: "rangeOver (w\<lparr>rangeOrder := rank\<rparr>) data = ys"
    by (simp add: rangeOver_def)
  show ?thesis by (rule exI [of _ rank]) (rule r)
qed

lemma filter_help_entries:
  "filter (\<lambda>m. helpText (desc m) = k) (map (entryMetric e) xs)
   = map (entryMetric e) (filter (\<lambda>kv. fst kv = k) xs)"
  by (induction xs) (simp_all add: helpText_entryMetric)

lemma list_all_rangeOver: "list_all P (rangeOver w data) = list_all P data"
  by (simp add: list_all_iff set_rangeOver)

text \<open>
  As long as the measurement of every entry can be built, the loop sends one
  measurement for each key of the map and merges nothing.
\<close>

lemma collect_valid_entries:
  assumes e: "e = NewExporter ns insecure uri user password"
    and req: "NewRequest w ''GET'' (URI e) = Inr req0"
    and duration: "descErr (duration e) = None"
    and up: "descErr (up e) = None"
    and resp: "Do w (sentRequest e req0) = (Some resp, None)"
    and status: "StatusCode resp = 200"
    and body: "Body resp = Inr body"
    and data: "Unmarshal body = Inr data"
    and valid: "list_all (entryValid e) data"
  shows "snd (collect e w) = Returns None"
    and "distinct (map fst data)"
    and "length (payload e (fst (collect e w))) = length data"
    and "mset (payload e (fst (collect e w))) = image_mset (entryMetric e) (mset data)"
    and "kv \<in> set data \<Longrightarrow>
         filter (\<lambda>m. helpText (desc m) = fst kv) (payload e (fst (collect e w)))
           = [entryMetric e kv]"
proof -
  show d: "distinct (map fst data)"
    using data by (rule Unmarshal_distinct)
  from valid have "list_all (entryValid e) (rangeOver w data)"
    by (simp only: list_all_rangeOver)
  then have "rangeLoop e [durationMetric e w, upMetric e 1] (rangeOver w data) =
      ([durationMetric e w, upMetric e 1] @ map (entryMetric e) (rangeOver w data), Returns None)"
    by (rule rangeLoop_valid)
  with collect_loop [OF req duration up resp body status data]
  have c: "collect e w =
      (durationMetric e w # upMetric e 1 # map (entryMetric e) (rangeOver w data), Returns None)"
    by simp
  then show "snd (collect e w) = Returns None" by simp
  from c have ch: "fst (collect e w) =
      durationMetric e w # upMetric e 1 # map (entryMetric e) (rangeOver w data)"
    by simp
  have p: "payload e (fst (collect e w)) = map (entryMetric e) (rangeOver w data)"
    unfolding ch by (rule payload_channel [OF e])
  show "length (payload e (fst (collect e w))) = length data"
    unfolding p by (simp add: rangeOver_def)
  show "mset (payload e (fst (collect e w))) = image_mset (entryMetric e) (mset data)"
    unfolding p by (simp add: mset_rangeOver)
  show "filter (\<lambda>m. helpText (desc m) = fst kv) (payload e (fst (collect e w)))
          = [entryMetric e kv]" if "kv \<in> set data"
  proof -
    from that have "(fst kv, snd kv) \<in> set data" by simp
    with d have "filter (\<lambda>x. fst x = fst kv) data = [(fst kv, snd kv)]"
      by (rule filter_key_distinct)
    then show ?thesis
      unfolding p by (simp add: filter_help_entries filter_rangeOver rangeOver_single)
  qed
qed

lemma payloadMetric_empty_key:
  "payloadMetric springExporter ([], v) = Inl ''is not a valid metric name''"
  by (simp add: payloadMetric_def keyToSnake_Nil BuildFQName_def NewDesc_def
      IsValidMetricName_def MustNewConstMetric_def)

lemma entry_leading_digit: "\<not> entryValid (NewExporter [] i u a p) (S ''1abc'', v)"
  by (simp add: entryValid_iff namespace_NewExporter keyToSnake_def keyRegExp_def
      isValidLegacyRune_def)

lemma Unmarshal_emptyKey: "Unmarshal (Some (JObject [([], JNumber 1)])) = Inr [([], 1)]"
  by (simp add: inFloat64_small)

text \<open>
  C10. One payload measurement for each key of the decoded map is what the loop sends
  only as long as every measurement can be built. The sanitizer turns the empty key into
  the empty name, which is not a valid metric name: at the body \<^verbatim>\<open>{"": 1}\<close>, which
  decodes into a map of one key, the cycle panics in the loop, having sent the duration
  and \<^verbatim>\<open>up\<close> and no payload measurement.
\<close>

theorem collect_empty_key:
  "Do emptyKey (sentRequest springExporter plainRequest)
     = (Some \<lparr>StatusCode = 200, Body = Inr (Some (JObject [([], JNumber 1)]))\<rparr>, None) \<and>
   Unmarshal (Some (JObject [([], JNumber 1)])) = Inr [([], 1)] \<and>
   collect springExporter emptyKey =
     ([durationMetric springExporter emptyKey, upMetric springExporter 1],
      Panics ''is not a valid metric name'') \<and>
   payload springExporter (fst (collect springExporter emptyKey)) = []"
proof -
  have "collect springExporter emptyKey =
     rangeLoop springExporter [durationMetric springExporter emptyKey, upMetric springExporter 1]
       (rangeOver emptyKey [([], 1)])"
    by (rule collect_loop [OF NewRequest_server [OF emptyKey_def] spring_duration spring_up
          Do_server [OF emptyKey_def] _ _ Unmarshal_emptyKey]) simp_all
  then have c: "collect springExporter emptyKey =
     ([durationMetric springExporter emptyKey, upMetric springExporter 1],
      Panics ''is not a valid metric name'')"
    by (simp add: rangeOver_single payloadMetric_empty_key)
  show ?thesis
    unfolding c
    by (simp add: Do_server [OF emptyKey_def] inFloat64_small payload_meta payload_Nil)
qed

text \<open>A number out of the range of \<^verbatim>\<open>float64\<close> is a type error.\<close>

lemma Unmarshal_out_of_range:
  "Unmarshal (Some (JObject [(k, JNumber (2 * 10 ^ 308))])) = Inl UnmarshalTypeError"
  by (simp add: inFloat64_def)

end
